theory Spec2Isabelle
  imports Main "HOL-Library.Char_ord" "HOL-Library.List_Lexorder" "HOL-Library.Multiset"
begin

section \<open>JavaScript values used as statistic keys\<close>

text \<open>
  The keys handed to \<^verbatim>\<open>Statistics\<close> are plain JavaScript data. \<^verbatim>\<open>Statistics.js\<close> does no
  arithmetic: it converts a number to a string and tests whether it is falsy. So a number
  is represented by the text \<^verbatim>\<open>Number.prototype.toString\<close> gives for it, which is how
  JavaScript itself prints it: \<^verbatim>\<open>1\<close>, \<^verbatim>\<open>-0.5\<close>, \<^verbatim>\<open>1152921504606847000\<close> for \<open>2^60\<close>,
  \<^verbatim>\<open>1e+21\<close>, \<^verbatim>\<open>NaN\<close>, \<^verbatim>\<open>Infinity\<close>. Two numbers have the same text only if they are the
  same number or are the two zeros, which print as \<^verbatim>\<open>0\<close> and behave alike here. A string
  is a list of 8-bit code units, an array the list of its elements and a plain object the
  list of its own enumerable properties in enumeration order.
\<close>

datatype jsval =
    JUndefined
  | JNull
  | JBool bool
  | JNum string
  | JStr string
  | JArr "jsval list"
  | JObj "(string \<times> jsval) list"

subsection \<open>String conversions\<close>

text \<open>
  The decimal numeral of a natural number: the name of an array index, as \<^verbatim>\<open>for ... in\<close>
  gives it. Array indices are below \<open>2^32\<close> and print as plain decimal numerals.
\<close>

definition digit_char :: "nat \<Rightarrow> char" where
  "digit_char d = ''0123456789'' ! d"

fun nat_digits :: "nat \<Rightarrow> string" where
  "nat_digits n = (if n < 10 then [digit_char n] else nat_digits (n div 10) @ [digit_char (n mod 10)])"

declare nat_digits.simps [simp del]

text \<open>
  A property of every text that \<^verbatim>\<open>Number.prototype.toString\<close> gives: it is \<^verbatim>\<open>NaN\<close> or
  \<^verbatim>\<open>Infinity\<close>, or begins with a digit or a minus sign.
\<close>

definition number_text :: "string \<Rightarrow> bool" where
  "number_text s = (s = ''NaN'' \<or> s = ''Infinity'' \<or> (s \<noteq> [] \<and> hd s \<in> set ''-0123456789''))"

text \<open>\<^verbatim>\<open>Array.prototype.join\<close> on a list of strings.\<close>

fun join :: "string \<Rightarrow> string list \<Rightarrow> string" where
  "join sep [] = []"
| "join sep [x] = x"
| "join sep (x # y # ys) = x @ sep @ join sep (y # ys)"

text \<open>
  \<^verbatim>\<open>ToString\<close>, the conversion the default comparison of \<^verbatim>\<open>Array.prototype.sort\<close> applies.
  An array is joined with commas, its \<^verbatim>\<open>undefined\<close> and \<^verbatim>\<open>null\<close> elements giving the
  empty string; a plain object gives \<^verbatim>\<open>[object Object]\<close>.
\<close>

fun to_string :: "jsval \<Rightarrow> string" where
  "to_string JUndefined = ''undefined''"
| "to_string JNull = ''null''"
| "to_string (JBool b) = (if b then ''true'' else ''false'')"
| "to_string (JNum n) = n"
| "to_string (JStr s) = s"
| "to_string (JArr xs) =
     join '','' (map (\<lambda>x. if x = JUndefined \<or> x = JNull then [] else to_string x) xs)"
| "to_string (JObj kvs) = ''[object Object]''"

subsection \<open>\<^verbatim>\<open>JSON.stringify\<close>\<close>

definition hex_digit :: "nat \<Rightarrow> char" where
  "hex_digit d = ''0123456789abcdef'' ! d"

definition quote_char :: "char \<Rightarrow> string" where
  "quote_char c =
     (if c = CHR 0x22 then [CHR 0x5C, CHR 0x22]
      else if c = CHR 0x5C then [CHR 0x5C, CHR 0x5C]
      else if c = CHR 0x08 then [CHR 0x5C, CHR ''b'']
      else if c = CHR 0x0C then [CHR 0x5C, CHR ''f'']
      else if c = CHR 0x0A then [CHR 0x5C, CHR ''n'']
      else if c = CHR 0x0D then [CHR 0x5C, CHR ''r'']
      else if c = CHR 0x09 then [CHR 0x5C, CHR ''t'']
      else if (of_char c :: nat) < 32 then
        [CHR 0x5C, CHR ''u'', CHR ''0'', CHR ''0'',
         hex_digit (of_char c div 16), hex_digit (of_char c mod 16)]
      else [c])"

definition quote :: "string \<Rightarrow> string" where
  "quote s = [CHR 0x22] @ concat (map quote_char s) @ [CHR 0x22]"

text \<open>
  \<^verbatim>\<open>JSON.stringify\<close> returns \<^verbatim>\<open>undefined\<close> (here \<open>None\<close>) for \<^verbatim>\<open>undefined\<close>. Inside an
  array such an element is written \<^verbatim>\<open>null\<close>; inside an object the property is left out.
  A finite number is written as \<^verbatim>\<open>toString\<close> prints it, any other number as \<^verbatim>\<open>null\<close>.
\<close>

fun json :: "jsval \<Rightarrow> string option" where
  "json JUndefined = None"
| "json JNull = Some ''null''"
| "json (JBool b) = Some (if b then ''true'' else ''false'')"
| "json (JNum n) =
     Some (if n = ''NaN'' \<or> n = ''Infinity'' \<or> n = ''-Infinity'' then ''null'' else n)"
| "json (JStr s) = Some (quote s)"
| "json (JArr xs) =
     Some (''['' @ join '','' (map (\<lambda>x. case json x of None \<Rightarrow> ''null'' | Some s \<Rightarrow> s) xs) @ '']'')"
| "json (JObj kvs) =
     Some (''{'' @ join '',''
        (concat (map (\<lambda>(k, v). case json v of None \<Rightarrow> [] | Some s \<Rightarrow> [quote k @ '':'' @ s]) kvs))
        @ ''}'')"

text \<open>
  \<^verbatim>\<open>JSON.stringify(x) + ''\<close>, and \<^verbatim>\<open>JSON.stringify(x)\<close> as an operand of a string
  concatenation: the value \<^verbatim>\<open>undefined\<close> becomes the text \<^verbatim>\<open>undefined\<close>.
\<close>

definition json_text :: "jsval \<Rightarrow> string" where
  "json_text v = (case json v of None \<Rightarrow> ''undefined'' | Some s \<Rightarrow> s)"

subsection \<open>\<^verbatim>\<open>Array.prototype.sort\<close> without a comparison function\<close>

text \<open>
  The \<^verbatim>\<open>undefined\<close> elements go to the end; the others are ordered by the code units of
  their \<^verbatim>\<open>ToString\<close> conversion. The sort is stable, as the language requires since
  ECMAScript 2019: \<open>sort_key\<close> is an insertion sort that keeps the order of elements with
  equal keys.
\<close>

definition array_sort :: "jsval list \<Rightarrow> jsval list" where
  "array_sort xs =
     sort_key to_string (filter (\<lambda>x. x \<noteq> JUndefined) xs) @ filter (\<lambda>x. x = JUndefined) xs"

text \<open>\<^verbatim>\<open>Object.keys(o)\<close> and the property read \<^verbatim>\<open>o[n]\<close> of a plain object.\<close>

definition object_keys :: "(string \<times> jsval) list \<Rightarrow> jsval list" where
  "object_keys kvs = map (\<lambda>(k, v). JStr k) kvs"

definition get_member :: "(string \<times> jsval) list \<Rightarrow> jsval \<Rightarrow> jsval" where
  "get_member kvs n = (case map_of kvs (to_string n) of None \<Rightarrow> JUndefined | Some v \<Rightarrow> v)"

section \<open>Statistics: the identifier of a key set\<close>

text \<open>
  The method \<^verbatim>\<open>__id__(keys)\<close> of \<^verbatim>\<open>Statistics.js\<close>, here \<open>stat_id\<close> (a name cannot begin
  with an underscore). \<^verbatim>\<open>typeof keys === 'object'\<close> holds of \<^verbatim>\<open>null\<close>, arrays and objects;
  \<^verbatim>\<open>null\<close> is excluded by the second test.
\<close>

fun stat_id :: "jsval \<Rightarrow> string" where
  "stat_id (JArr xs) = json_text (JArr (array_sort xs))"
| "stat_id (JObj kvs) =
     join '','' (map (\<lambda>n. json_text n @ '':'' @ json_text (get_member kvs n))
                   (array_sort (object_keys kvs)))"
| "stat_id keys = json_text keys"


subsection \<open>\<^verbatim>\<open>__id__\<close> over a store of mutable objects\<close>

text \<open>
  Arrays and objects are mutable and passed by reference. To follow what \<^verbatim>\<open>__id__\<close>
  writes, the same method is modelled over a store: a list of cells, a reference being
  the index of a cell. A cell holds the contents of one array or object. An argument is
  a primitive value (\<open>Inl\<close>) or a reference (\<open>Inr\<close>).
  \<^verbatim>\<open>slice\<close>, \<^verbatim>\<open>Object.keys\<close> and \<^verbatim>\<open>map\<close> allocate a new array; \<^verbatim>\<open>sort\<close> writes the
  sorted elements into the array it is called on and returns that same array.
\<close>

type_synonym store = "jsval list"

definition alloc :: "jsval \<Rightarrow> store \<Rightarrow> nat \<times> store" where
  "alloc v h = (length h, h @ [v])"

definition elements :: "jsval \<Rightarrow> jsval list" where
  "elements v = (case v of JArr xs \<Rightarrow> xs | _ \<Rightarrow> [])"

definition slice_ref :: "nat \<Rightarrow> store \<Rightarrow> nat \<times> store" where
  "slice_ref a h = alloc (JArr (elements (h ! a))) h"

definition sort_ref :: "nat \<Rightarrow> store \<Rightarrow> nat \<times> store" where
  "sort_ref a h = (a, h[a := JArr (array_sort (elements (h ! a)))])"

definition keys_ref :: "nat \<Rightarrow> store \<Rightarrow> nat \<times> store" where
  "keys_ref a h = alloc (JArr (case h ! a of JObj kvs \<Rightarrow> object_keys kvs | _ \<Rightarrow> [])) h"

definition map_ref :: "(jsval \<Rightarrow> jsval) \<Rightarrow> nat \<Rightarrow> store \<Rightarrow> nat \<times> store" where
  "map_ref f a h = alloc (JArr (map f (elements (h ! a)))) h"

definition join_ref :: "string \<Rightarrow> nat \<Rightarrow> store \<Rightarrow> string" where
  "join_ref sep a h =
     join sep (map (\<lambda>x. if x = JUndefined \<or> x = JNull then [] else to_string x) (elements (h ! a)))"

definition read_member :: "nat \<Rightarrow> store \<Rightarrow> jsval \<Rightarrow> jsval" where
  "read_member a h n = (case h ! a of JObj kvs \<Rightarrow> get_member kvs n | _ \<Rightarrow> JUndefined)"

definition stat_id_ref :: "jsval + nat \<Rightarrow> store \<Rightarrow> string \<times> store" where
  "stat_id_ref keys h =
     (case keys of
        Inl v \<Rightarrow> (json_text v, h)
      | Inr a \<Rightarrow>
          (case h ! a of
             JArr xs \<Rightarrow>
               (let (b, h1) = slice_ref a h;
                    (c, h2) = sort_ref b h1
                in (json_text (h2 ! c), h2))
           | _ \<Rightarrow>
               (let (b, h1) = keys_ref a h;
                    (c, h2) = sort_ref b h1;
                    (d, h3) = map_ref (\<lambda>n. JStr (json_text n @ '':'' @ json_text (read_member a h2 n))) c h2
                in (join_ref '','' d h3, h3))))"

text \<open>The value an argument denotes in a store.\<close>

definition deref :: "jsval + nat \<Rightarrow> store \<Rightarrow> jsval" where
  "deref keys h = (case keys of Inl v \<Rightarrow> v | Inr a \<Rightarrow> h ! a)"

definition is_object :: "jsval \<Rightarrow> bool" where
  "is_object v = (case v of JArr xs \<Rightarrow> True | JObj kvs \<Rightarrow> True | _ \<Rightarrow> False)"

text \<open>
  An argument is well formed when a primitive is not an array or object and a reference
  points at a cell holding one.
\<close>

definition valid_arg :: "jsval + nat \<Rightarrow> store \<Rightarrow> bool" where
  "valid_arg keys h =
     (case keys of Inl v \<Rightarrow> \<not> is_object v | Inr a \<Rightarrow> a < length h \<and> is_object (h ! a))"

section \<open>Statistics: the table of accumulators\<close>

text \<open>
  The class \<^verbatim>\<open>Statistic\<close> (\<^verbatim>\<open>Statistic.js\<close>) is not among the sources, so it is a parameter:
  its constructor, and the effect of each of its methods on the state of one accumulator.
  A method call ends by returning a result or by throwing; either way it may have changed
  the accumulator.
\<close>

datatype error = Error string

datatype stcall =
    Add jsval jsval
  | Gain jsval jsval jsval
  | AddAll jsval jsval
  | GainAll jsval jsval jsval
  | StartTime jsval
  | AddTime jsval
  | AddTick jsval

record ('st, 'r) Statistic_class =
  construct :: "jsval \<Rightarrow> 'st"
  respond :: "stcall \<Rightarrow> 'st \<Rightarrow> (error + 'r) \<times> 'st"

text \<open>
  A \<^verbatim>\<open>Statistics\<close> instance: the table \<^verbatim>\<open>__stats__\<close>, an association list from
  identifiers to references to which new entries are appended, and the \<^verbatim>\<open>Statistic\<close>
  objects the references point to. The constructor leaves the table empty.

  The table is a plain object, so a read \<^verbatim>\<open>__stats__[id]\<close> would also find a property
  inherited from \<^verbatim>\<open>Object.prototype\<close>. Those have the names below, none of which is the
  identifier of a key (shown further down), so a read is a lookup among the stored
  entries.
\<close>

definition object_prototype_names :: "string list" where
  "object_prototype_names =
     [''constructor'', ''hasOwnProperty'', ''isPrototypeOf'', ''propertyIsEnumerable'',
      ''toLocaleString'', ''toString'', ''valueOf'', ''__proto__'', ''__defineGetter__'',
      ''__defineSetter__'', ''__lookupGetter__'', ''__lookupSetter__'']"

record 'st statistics =
  stats_table :: "(string \<times> nat) list"
  objects :: "'st list"

definition Statistics :: "'st list \<Rightarrow> 'st statistics" where
  "Statistics objs = \<lparr>stats_table = [], objects = objs\<rparr>"

text \<open>
  \<^verbatim>\<open>stat(keys)\<close>: \<^verbatim>\<open>this.__stats__[id] || (this.__stats__[id] = new Statistic(keys))\<close>. A
  stored \<^verbatim>\<open>Statistic\<close> is an object, hence truthy.
\<close>

definition stat :: "('st, 'r) Statistic_class \<Rightarrow> jsval \<Rightarrow> 'st statistics \<Rightarrow> nat \<times> 'st statistics" where
  "stat C keys s =
     (let i = stat_id keys in
      case map_of (stats_table s) i of
        Some r \<Rightarrow> (r, s)
      | None \<Rightarrow>
          (length (objects s),
           s\<lparr>stats_table := stats_table s @ [(i, length (objects s))],
             objects := objects s @ [construct C keys]\<rparr>))"

text \<open>A method call on the \<^verbatim>\<open>Statistic\<close> object behind a reference.\<close>

definition send :: "('st, 'r) Statistic_class \<Rightarrow> stcall \<Rightarrow> nat \<Rightarrow> 'st statistics \<Rightarrow>
    (error + 'r) \<times> 'st statistics" where
  "send C c r s =
     (let (out, st) = respond C c (objects s ! r)
      in (out, s\<lparr>objects := (objects s)[r := st]\<rparr>))"

subsection \<open>Statistic updating shortcuts\<close>

definition add :: "('st, 'r) Statistic_class \<Rightarrow> jsval \<Rightarrow> jsval \<Rightarrow> jsval \<Rightarrow> 'st statistics \<Rightarrow>
    (error + 'r) \<times> 'st statistics" where
  "add C keys val data s = (let (r, s1) = stat C keys s in send C (Add val data) r s1)"

definition gain :: "('st, 'r) Statistic_class \<Rightarrow> jsval \<Rightarrow> jsval \<Rightarrow> jsval \<Rightarrow> jsval \<Rightarrow>
    'st statistics \<Rightarrow> (error + 'r) \<times> 'st statistics" where
  "gain C keys val factor data s =
     (let (r, s1) = stat C keys s in send C (Gain val factor data) r s1)"

definition addAll :: "('st, 'r) Statistic_class \<Rightarrow> jsval \<Rightarrow> jsval \<Rightarrow> jsval \<Rightarrow> 'st statistics \<Rightarrow>
    (error + 'r) \<times> 'st statistics" where
  "addAll C keys vals data s = (let (r, s1) = stat C keys s in send C (AddAll vals data) r s1)"

definition gainAll :: "('st, 'r) Statistic_class \<Rightarrow> jsval \<Rightarrow> jsval \<Rightarrow> jsval \<Rightarrow> jsval \<Rightarrow>
    'st statistics \<Rightarrow> (error + 'r) \<times> 'st statistics" where
  "gainAll C keys vals factor data s =
     (let (r, s1) = stat C keys s in send C (AddAll vals data) r s1)"

definition startTime :: "('st, 'r) Statistic_class \<Rightarrow> jsval \<Rightarrow> jsval \<Rightarrow> 'st statistics \<Rightarrow>
    (error + 'r) \<times> 'st statistics" where
  "startTime C keys timestamp s =
     (let (r, s1) = stat C keys s in send C (StartTime timestamp) r s1)"

definition addTime :: "('st, 'r) Statistic_class \<Rightarrow> jsval \<Rightarrow> jsval \<Rightarrow> 'st statistics \<Rightarrow>
    (error + 'r) \<times> 'st statistics" where
  "addTime C keys data s = (let (r, s1) = stat C keys s in send C (AddTime data) r s1)"

definition addTick :: "('st, 'r) Statistic_class \<Rightarrow> jsval \<Rightarrow> jsval \<Rightarrow> 'st statistics \<Rightarrow>
    (error + 'r) \<times> 'st statistics" where
  "addTick C keys data s = (let (r, s1) = stat C keys s in send C (AddTick data) r s1)"

subsection \<open>\<^verbatim>\<open>addObject\<close>\<close>

text \<open>The values \<^verbatim>\<open>!obj\<close> is true of; among the numbers, the zeros and \<^verbatim>\<open>NaN\<close>.\<close>

fun falsy :: "jsval \<Rightarrow> bool" where
  "falsy JUndefined = True"
| "falsy JNull = True"
| "falsy (JBool b) = (\<not> b)"
| "falsy (JNum n) = (n = ''0'' \<or> n = ''NaN'')"
| "falsy (JStr s) = (s = [])"
| "falsy (JArr xs) = False"
| "falsy (JObj kvs) = False"

text \<open>
  Modelled from the spec: \<^verbatim>\<open>raiseIf\<close> is defined in \<^verbatim>\<open>core.js\<close>, which is not among the
  sources. As its name and its use in \<^verbatim>\<open>addObject\<close> say, it throws an \<^verbatim>\<open>Error\<close> carrying the
  message when the condition holds and returns otherwise.
\<close>

definition raiseIf :: "bool \<Rightarrow> string \<Rightarrow> error option" where
  "raiseIf condition message = (if condition then Some (Error message) else None)"

text \<open>
  The members \<^verbatim>\<open>for (var name in obj)\<close> visits, each with the value \<^verbatim>\<open>obj[name]\<close>: the
  properties of an object, the indices of an array, the indices of a string with its
  one-character strings, and nothing for the other values. No enumerable property is
  taken to be inherited from a prototype.
\<close>

definition index_names :: "nat \<Rightarrow> string list" where
  "index_names n = map nat_digits [0..<n]"

fun members :: "jsval \<Rightarrow> (string \<times> jsval) list" where
  "members (JObj kvs) = kvs"
| "members (JArr xs) = zip (index_names (length xs)) xs"
| "members (JStr s) = zip (index_names (length s)) (map (\<lambda>c. JStr [c]) s)"
| "members v = []"

definition isArray :: "jsval \<Rightarrow> bool" where
  "isArray v = (case v of JArr xs \<Rightarrow> True | _ \<Rightarrow> False)"

datatype self = This

text \<open>The body of the loop, and the loop: a throwing call ends it.\<close>

definition addMember :: "('st, 'r) Statistic_class \<Rightarrow> jsval \<Rightarrow> string \<times> jsval \<Rightarrow>
    'st statistics \<Rightarrow> (error + 'r) \<times> 'st statistics" where
  "addMember C data m s =
     (if isArray (snd m) then addAll C (JStr (fst m)) (snd m) data s
      else add C (JStr (fst m)) (snd m) data s)"

fun addMembers :: "('st, 'r) Statistic_class \<Rightarrow> jsval \<Rightarrow> (string \<times> jsval) list \<Rightarrow>
    'st statistics \<Rightarrow> (error + self) \<times> 'st statistics" where
  "addMembers C data [] s = (Inr This, s)"
| "addMembers C data (m # ms) s =
     (case addMember C data m s of
        (Inl e, s1) \<Rightarrow> (Inl e, s1)
      | (Inr x, s1) \<Rightarrow> addMembers C data ms s1)"

definition addObject :: "('st, 'r) Statistic_class \<Rightarrow> jsval \<Rightarrow> jsval \<Rightarrow> 'st statistics \<Rightarrow>
    (error + self) \<times> 'st statistics" where
  "addObject C obj data s =
     (case raiseIf (falsy obj) (''Cannot add object '' @ json_text obj @ ''.'') of
        Some e \<Rightarrow> (Inl e, s)
      | None \<Rightarrow> addMembers C data (members obj) s)"


section \<open>Futures and their combinators\<close>

text \<open>
  Modelled from the spec: \<^verbatim>\<open>Future.js\<close> is not among the sources. A Future is in one of the
  states PENDING, FULFILLED with a value, or REJECTED with a reason, and holds the ordered
  sequence of continuation pairs (on-success handler, on-failure handler) appended while
  it is pending. What a handler does is its result of type \<open>'a\<close>.
\<close>

datatype ('v, 'e) fstate = PENDING | FULFILLED 'v | REJECTED 'e

record ('v, 'e, 'a) future =
  state :: "('v, 'e) fstate"
  continuations :: "(('v \<Rightarrow> 'a) \<times> ('e \<Rightarrow> 'a)) list"

definition pending_future :: "('v, 'e, 'a) future" where
  "pending_future = \<lparr>state = PENDING, continuations = []\<rparr>"

text \<open>
  Modelled from the spec: a settlement call on a pending Future stores the value or the
  reason, invokes the matching handler of every continuation pair in registration order
  and discards the list; on a settled Future it is a no-op. The second component of the
  result lists the handler invocations the call caused.
\<close>

definition fulfill :: "'v \<Rightarrow> ('v, 'e, 'a) future \<Rightarrow> ('v, 'e, 'a) future \<times> 'a list" where
  "fulfill v f =
     (if state f = PENDING
      then (\<lparr>state = FULFILLED v, continuations = []\<rparr>, map (\<lambda>(ok, ko). ok v) (continuations f))
      else (f, []))"

definition fail :: "'e \<Rightarrow> ('v, 'e, 'a) future \<Rightarrow> ('v, 'e, 'a) future \<times> 'a list" where
  "fail r f =
     (if state f = PENDING
      then (\<lparr>state = REJECTED r, continuations = []\<rparr>, map (\<lambda>(ok, ko). ko r) (continuations f))
      else (f, []))"

text \<open>
  Modelled from the spec: \<^verbatim>\<open>then\<close> appends the pair while the Future is pending; on a
  settled Future the matching handler is scheduled at once and nothing is queued.
\<close>

definition then_register :: "('v \<Rightarrow> 'a) \<times> ('e \<Rightarrow> 'a) \<Rightarrow> ('v, 'e, 'a) future \<Rightarrow>
    ('v, 'e, 'a) future \<times> 'a list" where
  "then_register k f =
     (case state f of
        PENDING \<Rightarrow> (f\<lparr>continuations := continuations f @ [k]\<rparr>, [])
      | FULFILLED v \<Rightarrow> (f, [fst k v])
      | REJECTED r \<Rightarrow> (f, [snd k r]))"

datatype ('v, 'e) settlement = Fulfill 'v | Fail 'e

fun settle :: "('v, 'e) settlement \<Rightarrow> ('v, 'e, 'a) future \<Rightarrow> ('v, 'e, 'a) future \<times> 'a list" where
  "settle (Fulfill v) f = fulfill v f"
| "settle (Fail r) f = fail r f"

text \<open>A sequence of settlement calls on one Future, with all the invocations they cause.\<close>

fun settle_all :: "('v, 'e) settlement list \<Rightarrow> ('v, 'e, 'a) future \<Rightarrow>
    ('v, 'e, 'a) future \<times> 'a list" where
  "settle_all [] f = (f, [])"
| "settle_all (c # cs) f =
     (let (f1, out1) = settle c f; (f2, out2) = settle_all cs f1 in (f2, out1 @ out2))"

text \<open>
  Modelled from the spec: \<^verbatim>\<open>all(futures)\<close>, as the state of its result for given states of
  the inputs. It rejects when an input is rejected, with that input's reason (the first in
  input order when several are), fulfills with the results in input order once every
  input is fulfilled, and is pending otherwise.
\<close>

fun reasons :: "('v, 'e) fstate list \<Rightarrow> 'e list" where
  "reasons [] = []"
| "reasons (REJECTED r # fs) = r # reasons fs"
| "reasons (f # fs) = reasons fs"

fun results :: "('v, 'e) fstate list \<Rightarrow> 'v list" where
  "results [] = []"
| "results (FULFILLED v # fs) = v # results fs"
| "results (f # fs) = results fs"

definition all_join :: "('v, 'e) fstate list \<Rightarrow> ('v list, 'e) fstate" where
  "all_join fs =
     (case reasons fs of
        r # rs \<Rightarrow> REJECTED r
      | [] \<Rightarrow> if length (results fs) = length fs then FULFILLED (results fs) else PENDING)"

text \<open>
  Modelled from the spec: \<^verbatim>\<open>retry(action, attempts, delayPolicy)\<close>. The action is given by
  the outcome of each of its invocations, counted from 0; the delay policy by the time to
  wait after each failed one. The result is the state of the returned Future, the number
  of invocations made and the delays waited. \<open>retry_loop\<close> makes the invocation with index
  \<open>i\<close> when \<open>n\<close> more are allowed after it. The spec names no outcome for zero attempts:
  no invocation is made and the Future stays pending.
\<close>

fun retry_loop :: "(nat \<Rightarrow> 'e + 'v) \<Rightarrow> (nat \<Rightarrow> nat) \<Rightarrow> nat \<Rightarrow> nat \<Rightarrow>
    ('v, 'e) fstate \<times> nat \<times> nat list" where
  "retry_loop action delayPolicy 0 i =
     (case action i of Inr v \<Rightarrow> (FULFILLED v, Suc i, []) | Inl r \<Rightarrow> (REJECTED r, Suc i, []))"
| "retry_loop action delayPolicy (Suc n) i =
     (case action i of
        Inr v \<Rightarrow> (FULFILLED v, Suc i, [])
      | Inl r \<Rightarrow>
          (let (out, k, waits) = retry_loop action delayPolicy n (Suc i)
           in (out, k, delayPolicy i # waits)))"

definition retry :: "(nat \<Rightarrow> 'e + 'v) \<Rightarrow> nat \<Rightarrow> (nat \<Rightarrow> nat) \<Rightarrow> ('v, 'e) fstate \<times> nat \<times> nat list" where
  "retry action attempts delayPolicy =
     (case attempts of 0 \<Rightarrow> (PENDING, 0, []) | Suc n \<Rightarrow> retry_loop action delayPolicy n 0)"

text \<open>
  Modelled from the spec: \<^verbatim>\<open>invoke(fn, ...args)\<close>. A call of \<^verbatim>\<open>fn\<close> returns a plain value,
  returns a Future, or throws. \<^verbatim>\<open>invoke\<close> itself either raises (\<open>Inl\<close>) or returns a
  Future (\<open>Inr\<close>, given by its state).
\<close>

datatype ('v, 'e) call_result = Returns 'v | ReturnsFuture "('v, 'e) fstate" | Throws 'e

definition invoke :: "('a \<Rightarrow> ('v, 'e) call_result) \<Rightarrow> 'a \<Rightarrow> 'e + ('v, 'e) fstate" where
  "invoke fn args =
     (case fn args of
        Returns v \<Rightarrow> Inr (FULFILLED v)
      | ReturnsFuture f \<Rightarrow> Inr f
      | Throws e \<Rightarrow> Inr (REJECTED e))"


section \<open>A recording accumulator\<close>

text \<open>
  An instance of the parameter, used to run the table on concrete inputs: the state of
  an accumulator is the list of the method calls it has received, and a call returns how
  many came before it.
\<close>

definition recorder :: "(stcall list, nat) Statistic_class" where
  "recorder = \<lparr>construct = (\<lambda>keys. []), respond = (\<lambda>c st. (Inr (length st), st @ [c]))\<rparr>"


section \<open>Sequences of calls\<close>

text \<open>
  The call \<^verbatim>\<open>this.stat(keys).m(...)\<close> written once for any method call \<open>c\<close>: what a
  shortcut that forwards to the accumulator of \<open>keys\<close> does.
\<close>

definition forward :: "('st, 'r) Statistic_class \<Rightarrow> stcall \<Rightarrow> jsval \<Rightarrow> 'st statistics \<Rightarrow>
    (error + 'r) \<times> 'st statistics" where
  "forward C c keys s = (let (r, s1) = stat C keys s in send C c r s1)"

text \<open>
  The calls a client can make on a \<^verbatim>\<open>Statistics\<close> instance through the methods above, and
  the state each leaves behind.
\<close>

datatype request =
    ReqStat jsval
  | ReqAdd jsval jsval jsval
  | ReqGain jsval jsval jsval jsval
  | ReqAddAll jsval jsval jsval
  | ReqGainAll jsval jsval jsval jsval
  | ReqStartTime jsval jsval
  | ReqAddTime jsval jsval
  | ReqAddTick jsval jsval
  | ReqAddObject jsval jsval

fun perform :: "('st, 'r) Statistic_class \<Rightarrow> request \<Rightarrow> 'st statistics \<Rightarrow> 'st statistics" where
  "perform C (ReqStat keys) s = snd (stat C keys s)"
| "perform C (ReqAdd keys val data) s = snd (add C keys val data s)"
| "perform C (ReqGain keys val factor data) s = snd (gain C keys val factor data s)"
| "perform C (ReqAddAll keys vals data) s = snd (addAll C keys vals data s)"
| "perform C (ReqGainAll keys vals factor data) s = snd (gainAll C keys vals factor data s)"
| "perform C (ReqStartTime keys timestamp) s = snd (startTime C keys timestamp s)"
| "perform C (ReqAddTime keys data) s = snd (addTime C keys data s)"
| "perform C (ReqAddTick keys data) s = snd (addTick C keys data s)"
| "perform C (ReqAddObject obj data) s = snd (addObject C obj data s)"

section \<open>What \<^verbatim>\<open>addObject\<close> is to do\<close>



text \<open>The number a decimal numeral denotes, to state that index names read back.\<close>

definition digits_value :: "string \<Rightarrow> nat" where
  "digits_value s = foldl (\<lambda>a c. 10 * a + (of_char c - 48)) 0 s"

section \<open>Properties of the identifier\<close>

lemma filter_undefined_replicate:
  "filter (\<lambda>x. x = JUndefined) xs = replicate (count (mset xs) JUndefined) JUndefined"
  by (induction xs) auto

lemma array_sort_permutation:
  assumes "mset xs = mset ys" and "inj_on to_string (set xs - {JUndefined})"
  shows "array_sort xs = array_sort ys"
proof -
  have m: "mset (filter (\<lambda>x. x \<noteq> JUndefined) xs) = mset (filter (\<lambda>x. x \<noteq> JUndefined) ys)"
    using assms(1) by simp
  have "set (filter (\<lambda>x. x \<noteq> JUndefined) xs) = set xs - {JUndefined}" by auto
  with assms(2) have i: "inj_on to_string (set (filter (\<lambda>x. x \<noteq> JUndefined) xs))" by simp
  have "sort_key to_string (filter (\<lambda>x. x \<noteq> JUndefined) xs)
      = sort_key to_string (filter (\<lambda>x. x \<noteq> JUndefined) ys)"
    by (rule sort_key_eq_sort_key [OF m i])
  moreover have "filter (\<lambda>x. x = JUndefined) xs = filter (\<lambda>x. x = JUndefined) ys"
    by (simp only: filter_undefined_replicate assms(1))
  ultimately show ?thesis by (simp add: array_sort_def)
qed

lemma object_keys_map: "object_keys kvs = map JStr (map fst kvs)"
  by (simp add: object_keys_def case_prod_beta)

lemma array_sort_object_keys:
  assumes "distinct (map fst p)" "distinct (map fst q)" "map_of p = map_of q"
  shows "array_sort (object_keys p) = array_sort (object_keys q)"
proof -
  have "dom (map_of p) = dom (map_of q)" using assms(3) by simp
  then have "set (map fst p) = set (map fst q)" by (simp add: dom_map_of_conv_image_fst)
  then have "mset (map fst p) = mset (map fst q)"
    using assms(1,2) set_eq_iff_mset_eq_distinct by blast
  then have "mset (map JStr (map fst p)) = mset (map JStr (map fst q))"
    by (metis mset_map)
  moreover have "inj_on to_string (set (map JStr (map fst p)) - {JUndefined})"
    by (auto simp: inj_on_def)
  ultimately show ?thesis
    unfolding object_keys_map by (rule array_sort_permutation)
qed

lemma stat_id_object_order:
  assumes "distinct (map fst p)" "distinct (map fst q)" "map_of p = map_of q"
  shows "stat_id (JObj p) = stat_id (JObj q)"
  using array_sort_object_keys [OF assms] assms(3) by (simp add: get_member_def)

lemma digit_char_digit: "d < 10 \<Longrightarrow> digit_char d \<in> set ''0123456789''"
  unfolding digit_char_def by (rule nth_mem) simp

lemma nat_digits_head: "nat_digits n \<noteq> [] \<and> hd (nat_digits n) \<in> set ''0123456789''"
proof (induction n rule: nat_digits.induct)
  case (1 n)
  show ?case
  proof (cases "n < 10")
    case True
    then show ?thesis using digit_char_digit [of n] by (simp add: nat_digits.simps [of n])
  next
    case False
    with 1 show ?thesis by (simp add: nat_digits.simps [of n])
  qed
qed

lemma join_head:
  assumes "\<forall>x\<in>set xs. x \<noteq> [] \<and> hd x = c"
  shows "join sep xs = [] \<or> hd (join sep xs) = c"
  using assms by (induction sep xs rule: join.induct) auto

lemma array_sort_set: "set (array_sort xs) = set xs"
  by (auto simp: array_sort_def)

lemma stat_id_object_head:
  "stat_id (JObj kvs) = [] \<or> hd (stat_id (JObj kvs)) = CHR 0x22"
  unfolding stat_id.simps
  by (rule join_head) (auto simp: array_sort_set object_keys_def json_text_def quote_def)

lemma stat_id_not_inherited:
  assumes "\<And>n. k = JNum n \<Longrightarrow> number_text n"
  shows "stat_id k \<notin> set object_prototype_names"
proof (cases k)
  case (JNum n)
  with assms have "number_text n" by simp
  moreover have "\<forall>m\<in>set object_prototype_names. \<not> number_text m"
    by (simp add: object_prototype_names_def number_text_def)
  ultimately have "n \<notin> set object_prototype_names" by blast
  moreover have "''null'' \<notin> set object_prototype_names"
    by (simp add: object_prototype_names_def)
  ultimately show ?thesis using JNum
    by (simp add: json_text_def)
next
  case (JObj kvs)
  then show ?thesis using stat_id_object_head [of kvs]
    by (auto simp: object_prototype_names_def)
qed (auto simp: json_text_def quote_def object_prototype_names_def)

text \<open>
  \<open>2^60\<close> prints as \<^verbatim>\<open>1152921504606847000\<close>. Beside the string with the same text it
  compares equal in the sort, so the order of the two decides the identifier.
\<close>

lemma large_number_beside_its_text:
  "stat_id (JArr [JNum ''1152921504606847000'', JStr ''1152921504606847000''])
     \<noteq> stat_id (JArr [JStr ''1152921504606847000'', JNum ''1152921504606847000''])"
  by (simp add: json_text_def array_sort_def quote_def quote_char_def)

text \<open>Index names are decimal numerals: read back, they give the index.\<close>

lemma digit_char_values: "\<forall>d\<in>set [0..<10]. of_char (digit_char d) = (48 + d :: nat)"
  by code_simp

lemma digit_char_value: "d < 10 \<Longrightarrow> of_char (digit_char d) = (48 + d :: nat)"
  using digit_char_values by simp

lemma nat_digits_value: "digits_value (nat_digits n) = n"
proof (induction n rule: nat_digits.induct)
  case (1 n)
  show ?case
  proof (cases "n < 10")
    case True
    then show ?thesis
      by (simp add: nat_digits.simps [of n] digits_value_def digit_char_value)
  next
    case False
    with 1 have "digits_value (nat_digits (n div 10)) = n div 10" by simp
    with False show ?thesis
      by (simp add: nat_digits.simps [of n] digits_value_def digit_char_value)
  qed
qed

section \<open>Properties of the table\<close>

lemma stat_existing:
  "map_of (stats_table s) (stat_id k) = Some r \<Longrightarrow> stat C k s = (r, s)"
  by (simp add: stat_def)

lemma stat_lookup_after:
  "stat C k s = (r, s1) \<Longrightarrow> map_of (stats_table s1) (stat_id k) = Some r"
  by (auto simp: stat_def Let_def map_add_def split: option.splits)

lemma stat_preserves_lookup:
  "map_of (stats_table s) i = Some r \<Longrightarrow> map_of (stats_table (snd (stat C k s))) i = Some r"
  by (auto simp: stat_def Let_def map_add_def split: option.splits)

text \<open>
  Claim C2, as amended. The identifier depends only on the key set in these cases: two
  arrays that are permutations of each other get the same identifier provided the
  elements other than \<^verbatim>\<open>undefined\<close> have pairwise different string conversions, and two
  objects with the same properties and values get the same identifier whatever the
  enumeration order. Keys with the same identifier resolve to the same table entry:
  after \<^verbatim>\<open>stat(k)\<close>, \<^verbatim>\<open>stat(k')\<close> returns the same accumulator and leaves the table as it is.
\<close>

theorem stat_id_normalised:
  "(mset xs = mset ys \<and> inj_on to_string (set xs - {JUndefined})
      \<longrightarrow> stat_id (JArr xs) = stat_id (JArr ys))
   \<and> (distinct (map fst p) \<and> distinct (map fst q) \<and> map_of p = map_of q
      \<longrightarrow> stat_id (JObj p) = stat_id (JObj q))
   \<and> (stat_id k = stat_id k' \<longrightarrow> stat C k' (snd (stat C k s)) = stat C k s)"
proof (intro conjI impI)
  assume "mset xs = mset ys \<and> inj_on to_string (set xs - {JUndefined})"
  then show "stat_id (JArr xs) = stat_id (JArr ys)"
    using array_sort_permutation by simp
next
  assume "distinct (map fst p) \<and> distinct (map fst q) \<and> map_of p = map_of q"
  then show "stat_id (JObj p) = stat_id (JObj q)"
    using stat_id_object_order by blast
next
  assume e: "stat_id k = stat_id k'"
  obtain r s1 where st: "stat C k s = (r, s1)" by (cases "stat C k s")
  from stat_lookup_after [OF st] e have "map_of (stats_table s1) (stat_id k') = Some r" by simp
  then have "stat C k' s1 = (r, s1)" by (rule stat_existing)
  with st show "stat C k' (snd (stat C k s)) = stat C k s" by simp
qed

theorem stat_id_normalised_witness:
  "stat_id (JArr [JStr ''b'', JNum ''1'', JUndefined, JStr ''a''])
     = stat_id (JArr [JUndefined, JStr ''a'', JStr ''b'', JNum ''1''])
   \<and> stat_id (JObj [(''x'', JNum ''1''), (''y'', JNull)])
     = stat_id (JObj [(''y'', JNull), (''x'', JNum ''1'')])
   \<and> stat recorder (JArr [JStr ''a'', JStr ''b''])
        (snd (stat recorder (JArr [JStr ''b'', JStr ''a'']) (Statistics [])))
     = stat recorder (JArr [JStr ''b'', JStr ''a'']) (Statistics [])"
proof -
  have a: "mset [JStr ''b'', JNum ''1'', JUndefined, JStr ''a'']
        = mset [JUndefined, JStr ''a'', JStr ''b'', JNum ''1'']
     \<and> inj_on to_string (set [JStr ''b'', JNum ''1'', JUndefined, JStr ''a''] - {JUndefined})"
    by (auto simp: inj_on_def)
  have b: "distinct (map fst [(''x'', JNum ''1''), (''y'', JNull)])
     \<and> distinct (map fst [(''y'', JNull), (''x'', JNum ''1'')])
     \<and> map_of [(''x'', JNum ''1''), (''y'', JNull)] = map_of [(''y'', JNull), (''x'', JNum ''1'')]"
    by (auto simp: fun_eq_iff)
  have c: "stat_id (JArr [JStr ''b'', JStr ''a'']) = stat_id (JArr [JStr ''a'', JStr ''b''])"
    by (simp add: array_sort_def)
  show ?thesis
    using a b c
      stat_id_normalised [of "[JStr ''b'', JNum ''1'', JUndefined, JStr ''a'']"
        "[JUndefined, JStr ''a'', JStr ''b'', JNum ''1'']"
        "[(''x'', JNum ''1''), (''y'', JNull)]" "[(''y'', JNull), (''x'', JNum ''1'')]"
        "JArr [JStr ''b'', JStr ''a'']" "JArr [JStr ''a'', JStr ''b'']"
        recorder "Statistics []"]
    by blast
qed

text \<open>
  Claim C2 as stated fails for arrays: \<^verbatim>\<open>[null, "null"]\<close> and \<^verbatim>\<open>["null", null]\<close> are
  permutations of the same two elements, the default comparison finds the two elements
  equal (both convert to the string \<^verbatim>\<open>null\<close>), so the sort keeps each array's order and the
  identifiers differ.
\<close>

theorem stat_id_permutation_counterexample:
  "mset [JNull, JStr ''null''] = mset [JStr ''null'', JNull]
   \<and> stat_id (JArr [JNull, JStr ''null'']) \<noteq> stat_id (JArr [JStr ''null'', JNull])"
  by (simp add: json_text_def array_sort_def quote_def quote_char_def)

lemma send_table: "stats_table (snd (send C c r s)) = stats_table s"
  by (simp add: send_def split: prod.splits)

lemma forward_preserves_lookup:
  "map_of (stats_table s) i = Some r \<Longrightarrow> map_of (stats_table (snd (forward C c k s))) i = Some r"
  using stat_preserves_lookup [of s i r C k]
  by (cases "stat C k s") (simp add: forward_def send_table)

lemma shortcuts_forward:
  "add C keys val data s = forward C (Add val data) keys s"
  "gain C keys val factor data s = forward C (Gain val factor data) keys s"
  "addAll C keys vals data s = forward C (AddAll vals data) keys s"
  "startTime C keys timestamp s = forward C (StartTime timestamp) keys s"
  "addTime C keys data s = forward C (AddTime data) keys s"
  "addTick C keys data s = forward C (AddTick data) keys s"
  by (simp_all add: add_def gain_def addAll_def startTime_def addTime_def addTick_def forward_def)

lemma gainAll_forward: "gainAll C keys vals factor data s = forward C (AddAll vals data) keys s"
  by (simp add: gainAll_def forward_def)

lemma addMember_forward:
  "addMember C data m s =
     forward C (if isArray (snd m) then AddAll (snd m) data else Add (snd m) data) (JStr (fst m)) s"
  by (simp add: addMember_def shortcuts_forward)

lemma addMembers_preserves_lookup:
  "map_of (stats_table s) i = Some r \<Longrightarrow>
   map_of (stats_table (snd (addMembers C data ms s))) i = Some r"
proof (induction ms arbitrary: s)
  case Nil
  then show ?case by simp
next
  case (Cons m ms)
  obtain out s1 where a: "addMember C data m s = (out, s1)" by (cases "addMember C data m s")
  have "map_of (stats_table (snd (addMember C data m s))) i = Some r"
    unfolding addMember_forward using Cons.prems by (rule forward_preserves_lookup)
  with a have "map_of (stats_table s1) i = Some r" by simp
  then show ?case
    using Cons.IH [of s1] a by (cases out) simp_all
qed

lemma perform_preserves_lookup:
  "map_of (stats_table s) i = Some r \<Longrightarrow> map_of (stats_table (perform C q s)) i = Some r"
proof (cases q)
  case (ReqAddObject obj data)
  assume "map_of (stats_table s) i = Some r"
  then show ?thesis
    using ReqAddObject addMembers_preserves_lookup [of s i r C data "members obj"]
    by (simp add: addObject_def raiseIf_def)
qed (simp_all add: stat_preserves_lookup shortcuts_forward gainAll_forward forward_preserves_lookup)

lemma fold_perform_preserves_lookup:
  "map_of (stats_table s) i = Some r \<Longrightarrow> map_of (stats_table (fold (perform C) qs s)) i = Some r"
  by (induction qs arbitrary: s) (simp_all add: perform_preserves_lookup)

text \<open>
  Claim C4. The first call \<^verbatim>\<open>stat(k)\<close>, made when the table has no entry under the
  identifier of \<open>k\<close>, creates a \<^verbatim>\<open>Statistic\<close> from \<open>k\<close> and stores it under that identifier.
  Every later call \<^verbatim>\<open>stat(k')\<close> with the same identifier, made at once or after any other
  calls on the instance, returns the same object and changes neither the table nor the
  objects.
\<close>

theorem stat_idempotent:
  assumes "stat C k s = (r, s1)" and "stat_id k' = stat_id k"
  shows "(map_of (stats_table s) (stat_id k) = None \<longrightarrow>
            r = length (objects s) \<and> stats_table s1 = stats_table s @ [(stat_id k, r)]
            \<and> objects s1 = objects s @ [construct C k])
         \<and> stat C k' s1 = (r, s1)
         \<and> stat C k' (fold (perform C) qs s1) = (r, fold (perform C) qs s1)"
proof (intro conjI impI)
  assume "map_of (stats_table s) (stat_id k) = None"
  with assms(1) show "r = length (objects s)"
    and "stats_table s1 = stats_table s @ [(stat_id k, r)]"
    and "objects s1 = objects s @ [construct C k]"
    by (auto simp: stat_def)
next
  have l: "map_of (stats_table s1) (stat_id k') = Some r"
    using stat_lookup_after [OF assms(1)] assms(2) by simp
  then show "stat C k' s1 = (r, s1)" by (rule stat_existing)
  from l have "map_of (stats_table (fold (perform C) qs s1)) (stat_id k') = Some r"
    by (rule fold_perform_preserves_lookup)
  then show "stat C k' (fold (perform C) qs s1) = (r, fold (perform C) qs s1)"
    by (rule stat_existing)
qed


theorem stat_idempotent_witness:
  "stat recorder (JArr [JStr ''b'', JStr ''a'']) (Statistics [])
     = (0, \<lparr>stats_table = [(stat_id (JArr [JStr ''b'', JStr ''a'']), 0)], objects = [[]]\<rparr>)
   \<and> stat_id (JArr [JStr ''a'', JStr ''b'']) = stat_id (JArr [JStr ''b'', JStr ''a''])
   \<and> stat recorder (JArr [JStr ''a'', JStr ''b''])
        (fold (perform recorder) [ReqAdd (JStr ''z'') (JNum ''1'') JNull, ReqStat (JNum ''3'')]
           \<lparr>stats_table = [(stat_id (JArr [JStr ''b'', JStr ''a'']), 0)], objects = [[]]\<rparr>)
     = (0, fold (perform recorder) [ReqAdd (JStr ''z'') (JNum ''1'') JNull, ReqStat (JNum ''3'')]
           \<lparr>stats_table = [(stat_id (JArr [JStr ''b'', JStr ''a'']), 0)], objects = [[]]\<rparr>)"
proof -
  have h1: "stat recorder (JArr [JStr ''b'', JStr ''a'']) (Statistics [])
     = (0, \<lparr>stats_table = [(stat_id (JArr [JStr ''b'', JStr ''a'']), 0)], objects = [[]]\<rparr>)"
    by (simp add: stat_def Statistics_def recorder_def)
  have h2: "stat_id (JArr [JStr ''a'', JStr ''b'']) = stat_id (JArr [JStr ''b'', JStr ''a''])"
    by (simp add: array_sort_def)
  show ?thesis
    using h1 h2
      stat_idempotent [OF h1 h2, of "[ReqAdd (JStr ''z'') (JNum ''1'') JNull, ReqStat (JNum ''3'')]"]
    by blast
qed

section \<open>Properties of the shortcuts\<close>

text \<open>
  Claim C3 is not met by \<^verbatim>\<open>gainAll\<close>. On a fresh instance with recording accumulators,
  \<^verbatim>\<open>gainAll("k", [1], 2, null)\<close> does not do what forwarding to the accumulator's own
  \<^verbatim>\<open>gainAll([1], 2, null)\<close> does: the accumulator receives \<^verbatim>\<open>addAll([1], null)\<close> and the
  factor is lost. The six other shortcuts forward to the method of their own name, as the
  lemma on forwarding above states.
\<close>

theorem gainAll_drops_factor:
  "gainAll recorder (JStr ''k'') (JArr [JNum ''1'']) (JNum ''2'') JNull (Statistics [])
     \<noteq> forward recorder (GainAll (JArr [JNum ''1'']) (JNum ''2'') JNull) (JStr ''k'') (Statistics [])
   \<and> objects (snd (gainAll recorder (JStr ''k'') (JArr [JNum ''1'']) (JNum ''2'') JNull (Statistics [])))
     = [[AddAll (JArr [JNum ''1'']) JNull]]"
  by (simp add: gainAll_def forward_def stat_def send_def Statistics_def recorder_def)

text \<open>
  Claim C8. \<^verbatim>\<open>gainAll(keys, values, factor, data)\<close> does not use \<open>factor\<close>: its result and
  its effect are those of \<^verbatim>\<open>addAll(keys, values, data)\<close>, and both are the call
  \<^verbatim>\<open>stat(keys).addAll(values, data)\<close>.
\<close>

theorem gainAll_is_addAll:
  "gainAll C keys vals factor data s = addAll C keys vals data s
   \<and> gainAll C keys vals factor data s = forward C (AddAll vals data) keys s"
  by (simp add: gainAll_def addAll_def forward_def)

section \<open>Properties of \<^verbatim>\<open>addObject\<close>\<close>










section \<open>The identifier leaves its argument alone\<close>

lemma stat_id_primitive: "\<not> is_object v \<Longrightarrow> stat_id v = json_text v"
  by (cases v) (simp_all add: is_object_def)

lemma stat_id_ref_array:
  assumes "a < length h" and "h ! a = JArr xs"
  shows "stat_id_ref (Inr a) h = (stat_id (JArr xs), h @ [JArr (array_sort xs)])"
  using assms
  by (simp add: stat_id_ref_def slice_ref_def sort_ref_def alloc_def elements_def)

lemma stat_id_ref_object:
  assumes "a < length h" and "h ! a = JObj kvs"
  shows "stat_id_ref (Inr a) h =
     (stat_id (JObj kvs),
      h @ [JArr (array_sort (object_keys kvs)),
           JArr (map (\<lambda>n. JStr (json_text n @ '':'' @ json_text (get_member kvs n)))
                   (array_sort (object_keys kvs)))])"
  using assms
  by (simp add: stat_id_ref_def keys_ref_def sort_ref_def map_ref_def join_ref_def alloc_def
      elements_def read_member_def nth_append comp_def)

text \<open>
  Claim C10. \<^verbatim>\<open>__id__(keys)\<close> changes no cell that existed before the call: the store
  after the call starts with the store before it, so an array argument keeps its elements
  and their order and an object argument its properties. Only new cells are added (the
  sorted copy, the key list, the mapped list). The string returned is the identifier of
  the value the argument denotes.
\<close>

theorem stat_id_ref_frame:
  assumes "valid_arg keys h"
  shows "take (length h) (snd (stat_id_ref keys h)) = h
     \<and> fst (stat_id_ref keys h) = stat_id (deref keys h)"
proof (cases keys)
  case (Inl v)
  with assms show ?thesis
    by (simp add: valid_arg_def stat_id_ref_def deref_def stat_id_primitive)
next
  case (Inr a)
  with assms have a: "a < length h" and o: "is_object (h ! a)"
    by (simp_all add: valid_arg_def)
  show ?thesis
  proof (cases "h ! a")
    case (JArr xs)
    with a Inr show ?thesis by (simp add: stat_id_ref_array deref_def)
  next
    case (JObj kvs)
    with a Inr show ?thesis by (simp add: stat_id_ref_object deref_def)
  qed (use o in \<open>simp_all add: is_object_def\<close>)
qed

theorem stat_id_ref_frame_witness:
  "valid_arg (Inr 1) [JObj [(''y'', JNull), (''x'', JNum ''1'')], JArr [JStr ''b'', JStr ''a'']]
   \<and> take 2 (snd (stat_id_ref (Inr 1) [JObj [(''y'', JNull), (''x'', JNum ''1'')], JArr [JStr ''b'', JStr ''a'']]))
       = [JObj [(''y'', JNull), (''x'', JNum ''1'')], JArr [JStr ''b'', JStr ''a'']]
   \<and> valid_arg (Inr 0) [JObj [(''y'', JNull), (''x'', JNum ''1'')], JArr [JStr ''b'', JStr ''a'']]
   \<and> take 2 (snd (stat_id_ref (Inr 0) [JObj [(''y'', JNull), (''x'', JNum ''1'')], JArr [JStr ''b'', JStr ''a'']]))
       = [JObj [(''y'', JNull), (''x'', JNum ''1'')], JArr [JStr ''b'', JStr ''a'']]"
proof -
  have v: "valid_arg (Inr 1) [JObj [(''y'', JNull), (''x'', JNum ''1'')], JArr [JStr ''b'', JStr ''a'']]"
    "valid_arg (Inr 0) [JObj [(''y'', JNull), (''x'', JNum ''1'')], JArr [JStr ''b'', JStr ''a'']]"
    by (simp_all add: valid_arg_def is_object_def)
  show ?thesis
    using v stat_id_ref_frame [OF v(1)] stat_id_ref_frame [OF v(2)]
    by (simp add: numeral_2_eq_2)
qed

section \<open>Properties of futures\<close>

lemma settle_settled: "state f \<noteq> PENDING \<Longrightarrow> settle c f = (f, [])"
  by (cases c) (simp_all add: fulfill_def fail_def)

lemma settle_not_pending: "state (fst (settle c f)) \<noteq> PENDING"
  by (cases c) (simp_all add: fulfill_def fail_def)

lemma settle_all_settled: "state f \<noteq> PENDING \<Longrightarrow> settle_all cs f = (f, [])"
  by (induction cs) (simp_all add: settle_settled)

text \<open>
  Claim C1. In any sequence of settlement calls on a Future only the first one counts:
  the whole sequence does what its first call does. Once a Future is settled, further
  settlement calls change neither its state nor its continuations and invoke no handler.
  On a pending Future the first call stores its value or reason and invokes the matching
  handler of every registered pair once, in registration order.
\<close>

theorem settle_at_most_once:
  "settle_all (c # cs) f = settle c f
   \<and> (state f \<noteq> PENDING \<longrightarrow> settle_all cs f = (f, []))
   \<and> (state f = PENDING \<longrightarrow>
        state (fst (settle_all (c # cs) f)) = (case c of Fulfill v \<Rightarrow> FULFILLED v | Fail r \<Rightarrow> REJECTED r)
        \<and> snd (settle_all (c # cs) f)
            = map (\<lambda>(ok, ko). case c of Fulfill v \<Rightarrow> ok v | Fail r \<Rightarrow> ko r) (continuations f))"
proof -
  obtain f1 out1 where s: "settle c f = (f1, out1)" by (cases "settle c f")
  have "state f1 \<noteq> PENDING" using settle_not_pending [of c f] s by simp
  then have "settle_all cs f1 = (f1, [])" by (rule settle_all_settled)
  with s have first: "settle_all (c # cs) f = settle c f" by simp
  have "state f = PENDING \<Longrightarrow>
        state (fst (settle c f)) = (case c of Fulfill v \<Rightarrow> FULFILLED v | Fail r \<Rightarrow> REJECTED r)
        \<and> snd (settle c f)
            = map (\<lambda>(ok, ko). case c of Fulfill v \<Rightarrow> ok v | Fail r \<Rightarrow> ko r) (continuations f)"
    by (cases c) (simp_all add: fulfill_def fail_def)
  with first show ?thesis by (simp add: settle_all_settled)
qed

theorem settle_at_most_once_witness:
  "state (fst (settle_all [Fulfill (1::nat), Fail ''late'', Fulfill 2]
       (fst (then_register (\<lambda>v. Inr v, \<lambda>r. Inl r) pending_future)))) = FULFILLED 1
   \<and> snd (settle_all [Fulfill (1::nat), Fail ''late'', Fulfill 2]
       (fst (then_register (\<lambda>v. Inr v, \<lambda>r. Inl r) pending_future))) = [Inr 1 :: string + nat]
   \<and> settle_all [Fail ''late'', Fulfill (2::nat)]
       \<lparr>state = FULFILLED 1, continuations = [] :: ((nat \<Rightarrow> string + nat) \<times> (string \<Rightarrow> string + nat)) list\<rparr>
     = (\<lparr>state = FULFILLED 1, continuations = []\<rparr>, [])"
  using settle_at_most_once [of "Fulfill (1::nat)" "[Fail ''late'', Fulfill 2]"
      "fst (then_register (\<lambda>v. Inr v, \<lambda>r. Inl r :: string + nat) pending_future)"]
    settle_at_most_once [of "Fail ''late''" "[Fulfill (2::nat)]"
      "\<lparr>state = FULFILLED 1, continuations = [] :: ((nat \<Rightarrow> string + nat) \<times> (string \<Rightarrow> string + nat)) list\<rparr>"]
  by (simp add: then_register_def pending_future_def fulfill_def fail_def)

lemma reasons_fulfilled: "reasons (map FULFILLED vs) = []"
  by (induction vs) simp_all

lemma results_fulfilled: "results (map FULFILLED vs) = vs"
  by (induction vs) simp_all

lemma reasons_first: "reasons (map FULFILLED vs @ REJECTED r # fs) = r # reasons fs"
  by (induction vs) simp_all

lemma all_join_fulfilled: "all_join (map FULFILLED vs) = FULFILLED vs"
  by (simp add: all_join_def reasons_fulfilled results_fulfilled)

lemma all_join_fail_fast: "all_join (map FULFILLED vs @ REJECTED r # fs) = REJECTED r"
  by (simp add: all_join_def reasons_first)

text \<open>
  Claim C5. \<^verbatim>\<open>all\<close> applied to the empty sequence gives a Future fulfilled with the
  empty sequence.
\<close>

theorem all_empty: "all_join ([] :: ('v, 'e) fstate list) = FULFILLED []"
  by (simp add: all_join_def)

lemma retry_loop_count:
  "i < fst (snd (retry_loop action delayPolicy n i))
   \<and> fst (snd (retry_loop action delayPolicy n i)) \<le> Suc (i + n)"
proof (induction n arbitrary: i)
  case 0
  show ?case by (simp split: sum.splits)
next
  case (Suc n)
  show ?case
  proof (cases "action i")
    case (Inr v)
    then show ?thesis by simp
  next
    case (Inl r)
    with Suc [of "Suc i"] show ?thesis by (simp split: prod.splits) force
  qed
qed

lemma retry_loop_success:
  assumes "action (i + j) = Inr v" and "\<forall>m<j. \<exists>r. action (i + m) = Inl r" and "j \<le> n"
  shows "fst (retry_loop action delayPolicy n i) = FULFILLED v
     \<and> fst (snd (retry_loop action delayPolicy n i)) = Suc (i + j)"
  using assms
proof (induction n arbitrary: i j)
  case 0
  then show ?case by simp
next
  case (Suc n)
  show ?case
  proof (cases j)
    case 0
    with Suc.prems show ?thesis by simp
  next
    case (Suc j')
    with Suc.prems(2) obtain r where r: "action i = Inl r" by force
    have a: "action (Suc i + j') = Inr v" using Suc.prems(1) Suc by simp
    have b: "\<forall>m<j'. \<exists>r. action (Suc i + m) = Inl r"
    proof (intro allI impI)
      fix m assume "m < j'"
      then have "Suc m < j" using Suc by simp
      with Suc.prems(2) have "\<exists>r. action (i + Suc m) = Inl r" by blast
      then show "\<exists>r. action (Suc i + m) = Inl r" by simp
    qed
    have c: "j' \<le> n" using Suc.prems(3) Suc by simp
    from Suc.IH [OF a b c] r Suc show ?thesis
      by (cases "retry_loop action delayPolicy n (Suc i)") simp
  qed
qed

lemma retry_loop_exhausted:
  assumes "\<forall>m\<le>n. \<exists>r. action (i + m) = Inl r" and "action (i + n) = Inl r"
  shows "fst (retry_loop action delayPolicy n i) = REJECTED r
     \<and> fst (snd (retry_loop action delayPolicy n i)) = Suc (i + n)"
  using assms
proof (induction n arbitrary: i)
  case 0
  then show ?case by simp
next
  case (Suc n)
  from Suc.prems(1) obtain r0 where r0: "action i = Inl r0" by force
  have a: "\<forall>m\<le>n. \<exists>r. action (Suc i + m) = Inl r"
  proof (intro allI impI)
    fix m assume "m \<le> n"
    then have "Suc m \<le> Suc n" by simp
    with Suc.prems(1) have "\<exists>r. action (i + Suc m) = Inl r" by blast
    then show "\<exists>r. action (Suc i + m) = Inl r" by simp
  qed
  have b: "action (Suc i + n) = Inl r" using Suc.prems(2) by simp
  from Suc.IH [OF a b] r0 show ?case
    by (cases "retry_loop action delayPolicy n (Suc i)") simp
qed

text \<open>
  Claim C6. \<^verbatim>\<open>retry(action, attempts, delayPolicy)\<close> invokes the action at most
  \<open>attempts\<close> times. If invocation \<open>j\<close> is the first to succeed and \<open>j < attempts\<close>, the
  result is fulfilled with its value after \<open>j + 1\<close> invocations. If all of the
  \<open>attempts > 0\<close> invocations fail, the result is rejected with the reason of the last
  one.
\<close>

theorem retry_contract:
  "fst (snd (retry action attempts delayPolicy)) \<le> attempts
   \<and> (j < attempts \<and> action j = Inr v \<and> (\<forall>m<j. \<exists>r. action m = Inl r) \<longrightarrow>
        fst (retry action attempts delayPolicy) = FULFILLED v
        \<and> fst (snd (retry action attempts delayPolicy)) = Suc j)
   \<and> (0 < attempts \<and> (\<forall>m<attempts. \<exists>r. action m = Inl r) \<and> action (attempts - 1) = Inl r \<longrightarrow>
        fst (retry action attempts delayPolicy) = REJECTED r
        \<and> fst (snd (retry action attempts delayPolicy)) = attempts)"
proof (cases attempts)
  case 0
  then show ?thesis by (simp add: retry_def)
next
  case (Suc n)
  have 1: "fst (snd (retry_loop action delayPolicy n 0)) \<le> Suc n"
    using retry_loop_count [of 0 action delayPolicy n] by simp
  have 2: "fst (retry_loop action delayPolicy n 0) = FULFILLED v
        \<and> fst (snd (retry_loop action delayPolicy n 0)) = Suc j"
    if "j < Suc n" "action j = Inr v" "\<forall>m<j. \<exists>r. action m = Inl r"
    using retry_loop_success [of action 0 j v n delayPolicy] that by simp
  have 3: "fst (retry_loop action delayPolicy n 0) = REJECTED r
        \<and> fst (snd (retry_loop action delayPolicy n 0)) = Suc n"
    if "\<forall>m<Suc n. \<exists>r. action m = Inl r" "action n = Inl r"
    using retry_loop_exhausted [of n action 0 r delayPolicy] that by (simp add: less_Suc_eq_le)
  from 1 2 3 Suc show ?thesis by (simp add: retry_def)
qed

theorem retry_contract_witness:
  "retry (\<lambda>i::nat. if i < 2 then Inl (''failure'', i) else Inr (7::nat)) 3 (\<lambda>i. 10)
     = (FULFILLED 7, 3, [10, 10])
   \<and> fst (retry (\<lambda>i::nat. Inl (''failure'', i) :: (string \<times> nat) + nat) 3 (\<lambda>i. 10))
     = REJECTED (''failure'', 2)
   \<and> fst (snd (retry (\<lambda>i::nat. Inl (''failure'', i) :: (string \<times> nat) + nat) 3 (\<lambda>i. 10))) = 3"
proof -
  have a: "(2::nat) < 3 \<and> (\<lambda>i::nat. if i < 2 then Inl (''failure'', i) else Inr (7::nat)) 2 = Inr 7
      \<and> (\<forall>m<2::nat. \<exists>r. (\<lambda>i::nat. if i < 2 then Inl (''failure'', i) else Inr (7::nat)) m = Inl r)"
    by simp
  have b: "(0::nat) < 3 \<and> (\<forall>m<3::nat. \<exists>r. (\<lambda>i::nat. Inl (''failure'', i) :: (string \<times> nat) + nat) m = Inl r)
      \<and> (\<lambda>i::nat. Inl (''failure'', i) :: (string \<times> nat) + nat) (3 - 1) = Inl (''failure'', 2)"
    by simp
  have c: "retry (\<lambda>i::nat. if i < 2 then Inl (''failure'', i) else Inr (7::nat)) 3 (\<lambda>i. 10)
     = (FULFILLED 7, 3, [10::nat, 10])"
    by (simp add: retry_def numeral_3_eq_3)
  show ?thesis
    using a b c
      retry_contract [of "\<lambda>i::nat. if i < 2 then Inl (''failure'', i) else Inr (7::nat)" 3 "\<lambda>i. 10" 2 7]
      retry_contract [of "\<lambda>i::nat. Inl (''failure'', i) :: (string \<times> nat) + nat" 3 "\<lambda>i. 10" _ _ "(''failure'', 2)"]
    by simp
qed

text \<open>
  Claim C7. If \<open>fn\<close> throws when called with the arguments, \<^verbatim>\<open>invoke\<close> returns a Future
  rejected with what was thrown; \<^verbatim>\<open>invoke\<close> itself never raises.
\<close>

theorem invoke_catches_throw:
  "(fn args = Throws e \<longrightarrow> invoke fn args = Inr (REJECTED e))
   \<and> (\<exists>f. invoke fn args = Inr f)"
  by (simp add: invoke_def split: call_result.splits)

theorem invoke_catches_throw_witness:
  "invoke (\<lambda>x. if x = (0::nat) then Throws ''division by zero'' else Returns (10 div x)) 0
     = Inr (REJECTED ''division by zero'')"
  using invoke_catches_throw [of "\<lambda>x. if x = (0::nat) then Throws ''division by zero'' else Returns (10 div x)"
      0 "''division by zero''"]
  by simp

end
